theory Spec2Isabelle
  imports Main "HOL-Library.Word" "HOL-Library.Sublist"
begin

section \<open>One entry of the header search list (include/vlang/Lex/DirectoryLookup.h)\<close>

subsection \<open>Enumerations and pointers\<close>

text \<open>\<^verbatim>\<open>enum LookupType_t { LT_NormalDir, LT_HeaderMap };\<close>\<close>

datatype LookupType_t = LT_NormalDir | LT_HeaderMap

text \<open>The enumerators' values, as the 1-bit field \<^verbatim>\<open>LookupType\<close> stores them.\<close>

fun LookupType_value :: "LookupType_t \<Rightarrow> 1 word" where
  "LookupType_value LT_NormalDir = 0"
| "LookupType_value LT_HeaderMap = 1"

text \<open>The cast \<^verbatim>\<open>(LookupType_t)LookupType\<close> of the 1-bit field.\<close>

definition LookupType_cast :: "1 word \<Rightarrow> LookupType_t" where
  "LookupType_cast w = (if w = 0 then LT_NormalDir else LT_HeaderMap)"

text \<open>
  Modelled from the spec: \<^verbatim>\<open>SrcMgr::CharacteristicKind\<close> is declared in
  \<^verbatim>\<open>vlang/Basic/SourceManager.h\<close>, which is not among the sources. The spec
  (section 3, DirCharacteristic) gives its values as User, System, ExternCSystem and
  a reserved fourth one: the four values of the 2-bit field, in this order.
\<close>

datatype CharacteristicKind = C_User | C_System | C_ExternCSystem | C_Reserved

text \<open>
  Modelled from the spec: the enumerators' values, counted from 0 in the order of the
  spec's list, as \<^verbatim>\<open>DirCharacteristic(DT)\<close> converts them to \<^verbatim>\<open>unsigned\<close>.
\<close>

fun CharacteristicKind_value :: "CharacteristicKind \<Rightarrow> nat" where
  "CharacteristicKind_value C_User = 0"
| "CharacteristicKind_value C_System = 1"
| "CharacteristicKind_value C_ExternCSystem = 2"
| "CharacteristicKind_value C_Reserved = 3"

text \<open>The cast \<^verbatim>\<open>(SrcMgr::CharacteristicKind)DirCharacteristic\<close> of the 2-bit field.\<close>

definition CharacteristicKind_cast :: "2 word \<Rightarrow> CharacteristicKind" where
  "CharacteristicKind_cast w =
     (if w = 0 then C_User else if w = 1 then C_System
      else if w = 2 then C_ExternCSystem else C_Reserved)"

text \<open>
  A pointer \<^verbatim>\<open>const T *\<close> is a \<open>'t option\<close>: \<open>None\<close> is the null pointer
  (the \<^verbatim>\<open>0\<close> the accessors return), \<open>Some h\<close> points to the object \<open>h\<close>. The
  classes \<^verbatim>\<open>DirectoryEntry\<close> and \<^verbatim>\<open>HeaderMap\<close> are only forward-declared in the
  header, so they are the type parameters \<open>'d\<close> and \<open>'m\<close>.

  The anonymous union \<^verbatim>\<open>u\<close> holds the member that was written last; reading the
  other member is the fault \<open>InactiveUnionMember\<close>.
\<close>

datatype ('d, 'm) u_t = Dir "'d option" | Map "'m option"

datatype fault = InactiveUnionMember

fun u_Dir :: "('d, 'm) u_t \<Rightarrow> fault + 'd option" where
  "u_Dir (Dir p) = Inr p"
| "u_Dir (Map _) = Inl InactiveUnionMember"

fun u_Map :: "('d, 'm) u_t \<Rightarrow> fault + 'm option" where
  "u_Map (Map p) = Inr p"
| "u_Map (Dir _) = Inl InactiveUnionMember"

subsection \<open>The class\<close>

text \<open>
  \<^verbatim>\<open>
  union { const DirectoryEntry *Dir; const HeaderMap *Map; } u;
  unsigned DirCharacteristic : 2;
  unsigned LookupType : 1;
  unsigned IsIndexHeaderMap : 1;
  \<close>
\<close>

record ('d, 'm) DirectoryLookup =
  u :: "('d, 'm) u_t"
  DirCharacteristic :: "2 word"
  LookupType :: "1 word"
  IsIndexHeaderMap :: "1 word"

text \<open>
  \<^verbatim>\<open>
  DirectoryLookup(const DirectoryEntry *dir, SrcMgr::CharacteristicKind DT,
                  bool isFramework)
    : DirCharacteristic(DT), LookupType(LT_NormalDir), IsIndexHeaderMap(false) {
    u.Dir = dir;
  }
  \<close>
\<close>

definition DirectoryLookup_dir ::
  "'d option \<Rightarrow> CharacteristicKind \<Rightarrow> bool \<Rightarrow> ('d, 'm) DirectoryLookup" where
  "DirectoryLookup_dir dir DT isFramework =
     \<lparr>u = Dir dir,
      DirCharacteristic = word_of_nat (CharacteristicKind_value DT),
      LookupType = LookupType_value LT_NormalDir,
      IsIndexHeaderMap = of_bool False\<rparr>"

text \<open>
  \<^verbatim>\<open>
  DirectoryLookup(const HeaderMap *map, SrcMgr::CharacteristicKind DT,
                  bool isIndexHeaderMap)
    : DirCharacteristic(DT), LookupType(LT_HeaderMap),
      IsIndexHeaderMap(isIndexHeaderMap) {
    u.Map = map;
  }
  \<close>
\<close>

definition DirectoryLookup_map ::
  "'m option \<Rightarrow> CharacteristicKind \<Rightarrow> bool \<Rightarrow> ('d, 'm) DirectoryLookup" where
  "DirectoryLookup_map map' DT isIndexHeaderMap' =
     \<lparr>u = Map map',
      DirCharacteristic = word_of_nat (CharacteristicKind_value DT),
      LookupType = LookupType_value LT_HeaderMap,
      IsIndexHeaderMap = of_bool isIndexHeaderMap'\<rparr>"

text \<open>\<^verbatim>\<open>LookupType_t getLookupType() const { return (LookupType_t)LookupType; }\<close>\<close>

definition getLookupType :: "('d, 'm) DirectoryLookup \<Rightarrow> LookupType_t" where
  "getLookupType d = LookupType_cast (LookupType d)"

text \<open>\<^verbatim>\<open>bool isNormalDir() const { return getLookupType() == LT_NormalDir; }\<close>\<close>

definition isNormalDir :: "('d, 'm) DirectoryLookup \<Rightarrow> bool" where
  "isNormalDir d = (getLookupType d = LT_NormalDir)"

text \<open>\<^verbatim>\<open>bool isHeaderMap() const { return getLookupType() == LT_HeaderMap; }\<close>\<close>

definition isHeaderMap :: "('d, 'm) DirectoryLookup \<Rightarrow> bool" where
  "isHeaderMap d = (getLookupType d = LT_HeaderMap)"

text \<open>\<^verbatim>\<open>const DirectoryEntry *getDir() const { return isNormalDir() ? u.Dir : 0; }\<close>\<close>

definition getDir :: "('d, 'm) DirectoryLookup \<Rightarrow> fault + 'd option" where
  "getDir d = (if isNormalDir d then u_Dir (u d) else Inr None)"

text \<open>\<^verbatim>\<open>const HeaderMap *getHeaderMap() const { return isHeaderMap() ? u.Map : 0; }\<close>\<close>

definition getHeaderMap :: "('d, 'm) DirectoryLookup \<Rightarrow> fault + 'm option" where
  "getHeaderMap d = (if isHeaderMap d then u_Map (u d) else Inr None)"

text \<open>
  \<^verbatim>\<open>
  SrcMgr::CharacteristicKind getDirCharacteristic() const {
    return (SrcMgr::CharacteristicKind)DirCharacteristic;
  }
  \<close>
\<close>

definition getDirCharacteristic :: "('d, 'm) DirectoryLookup \<Rightarrow> CharacteristicKind" where
  "getDirCharacteristic d = CharacteristicKind_cast (DirCharacteristic d)"

text \<open>\<^verbatim>\<open>bool isIndexHeaderMap() const { return isHeaderMap() && IsIndexHeaderMap; }\<close>\<close>

definition isIndexHeaderMap :: "('d, 'm) DirectoryLookup \<Rightarrow> bool" where
  "isIndexHeaderMap d = (isHeaderMap d \<and> IsIndexHeaderMap d \<noteq> 0)"

text \<open>
  The header declares two more members, \<^verbatim>\<open>const char *getName() const\<close> and
  \<^verbatim>\<open>const FileEntry *LookupFile(StringRef Filename, HeaderSearch &HS,
  SmallVectorImpl<char> *SearchPath, SmallVectorImpl<char> *RelativePath) const\<close>,
  and defines neither: they have no definition here.
\<close>

text \<open>
  The discriminant agrees with the union: the member written last is the one
  \<^verbatim>\<open>LookupType\<close> names.
\<close>

definition discriminated :: "('d, 'm) DirectoryLookup \<Rightarrow> bool" where
  "discriminated d =
     (case u d of
        Dir _ \<Rightarrow> LookupType d = LookupType_value LT_NormalDir
      | Map _ \<Rightarrow> LookupType d = LookupType_value LT_HeaderMap)"

section \<open>The option table emitter (utils/TableGen/OptParserEmitter.cpp)\<close>

subsection \<open>C strings\<close>

text \<open>
  A \<^verbatim>\<open>const char *\<close> argument is modelled by the list of chars stored from the
  pointer on. The terminating \<^verbatim>\<open>'\0'\<close> is implicit at the end of the list; a
  \<^verbatim>\<open>'\0'\<close> stored inside the list ends the C string there, as it does for the
  pointer returned by \<^verbatim>\<open>std::string::c_str()\<close>.
\<close>

definition NUL :: char where
  "NUL = CHR 0x00"

text \<open>\<^verbatim>\<open>*A\<close>: the char under the pointer.\<close>

definition deref :: "string \<Rightarrow> char" where
  "deref A = (case A of [] \<Rightarrow> NUL | a # _ \<Rightarrow> a)"

text \<open>The C string a pointer denotes: the chars before the first \<^verbatim>\<open>'\0'\<close>.\<close>

definition c_str :: "string \<Rightarrow> string" where
  "c_str A = takeWhile (\<lambda>c. c \<noteq> NUL) A"

text \<open>
  \<^verbatim>\<open>a < b\<close> on two \<^verbatim>\<open>char\<close>s promotes both to \<^verbatim>\<open>int\<close>. Whether plain
  \<^verbatim>\<open>char\<close> is signed is up to the platform, so the signedness is a parameter:
  \<open>sc = True\<close> reads a byte as two's complement.
\<close>

definition char_value :: "bool \<Rightarrow> char \<Rightarrow> int" where
  "char_value sc c = (if sc \<and> 128 \<le> (of_char c :: int) then of_char c - 256 else of_char c)"

definition char_less :: "bool \<Rightarrow> char \<Rightarrow> char \<Rightarrow> bool" where
  "char_less sc a b = (char_value sc a < char_value sc b)"

subsection \<open>StrCmpOptionName\<close>

text \<open>
  \<^verbatim>\<open>
  static int StrCmpOptionName(const char *A, const char *B) {
    char a = *A, b = *B;
    while (a == b) {
      if (a == '\0')
        return 0;
      a = *++A;
      b = *++B;
    }
    if (a == '\0') // A is a prefix of B.
      return 1;
    if (b == '\0') // B is a prefix of A.
      return -1;
    // Otherwise lexicographic.
    return (a < b) ? -1 : 1;
  }
  \<close>
  One unfolding of the function is one test of the loop condition; \<open>tl\<close> is the
  pointer increment, taken only after a char other than \<^verbatim>\<open>'\0'\<close> was read.
\<close>

function StrCmpOptionName :: "bool \<Rightarrow> string \<Rightarrow> string \<Rightarrow> int" where
  "StrCmpOptionName sc A B =
     (if deref A = deref B then
        (if deref A = NUL then 0 else StrCmpOptionName sc (tl A) (tl B))
      else if deref A = NUL then 1
      else if deref B = NUL then - 1
      else if char_less sc (deref A) (deref B) then - 1 else 1)"
  by pat_completeness auto
termination
  by (relation "measure (\<lambda>(sc, A, B). length A)")
    (auto simp: deref_def split: list.splits)

declare StrCmpOptionName.simps [simp del]

subsection \<open>CompareOptionRecords\<close>

text \<open>
  The fields of a TableGen record of class \<^verbatim>\<open>Option\<close> that the comparison reads:
  \<^verbatim>\<open>Name\<close>, \<^verbatim>\<open>Prefixes\<close>, and of the record's \<^verbatim>\<open>Kind\<close> the bit
  \<^verbatim>\<open>Sentinel\<close> and the integer \<^verbatim>\<open>Precedence\<close> (\<^verbatim>\<open>getValueAsInt\<close> returns an
  \<^verbatim>\<open>int64_t\<close>).
\<close>

record OptionKind =
  Sentinel :: bool
  Precedence :: "64 word"

record Record =
  Name :: string
  Prefixes :: "string list"
  Kind :: OptionKind

text \<open>\<^verbatim>\<open>PrintFatalError\<close> prints its message and ends the program.\<close>

datatype error = FatalError string

text \<open>
  The loop over the two prefix lists, in step, as long as both have an element:
  \<open>Some Cmp\<close> when it returns \<open>Cmp\<close> from the function, \<open>None\<close> when it runs to its
  end.
  \<^verbatim>\<open>
  for (APre = APrefixes.begin(), AEPre = APrefixes.end(),
       BPre = BPrefixes.begin(), BEPre = BPrefixes.end();
       APre != AEPre && BPre != BEPre; ++APre, ++BPre) {
    if (int Cmp = StrCmpOptionName(APre->c_str(), BPre->c_str()))
      return Cmp;
  }
  \<close>
\<close>

fun ComparePrefixes :: "bool \<Rightarrow> string list \<Rightarrow> string list \<Rightarrow> int option" where
  "ComparePrefixes sc (APre # APrefixes) (BPre # BPrefixes) =
     (if StrCmpOptionName sc APre BPre \<noteq> 0 then Some (StrCmpOptionName sc APre BPre)
      else ComparePrefixes sc APrefixes BPrefixes)"
| "ComparePrefixes sc [] BPrefixes = None"
| "ComparePrefixes sc APrefixes [] = None"

text \<open>
  \<^verbatim>\<open>int APrec = A->getValueAsDef("Kind")->getValueAsInt("Precedence");\<close> narrows the
  \<^verbatim>\<open>int64_t\<close> to a 32-bit \<^verbatim>\<open>int\<close>.
\<close>

definition Prec :: "Record \<Rightarrow> 32 word" where
  "Prec R = ucast (Precedence (Kind R))"

text \<open>
  \<^verbatim>\<open>
  static int CompareOptionRecords(const void *Av, const void *Bv) {
    const Record *A = *(const Record*const*) Av;
    const Record *B = *(const Record*const*) Bv;

    // Sentinel options precede all others and are only ordered by precedence.
    bool ASent = A->getValueAsDef("Kind")->getValueAsBit("Sentinel");
    bool BSent = B->getValueAsDef("Kind")->getValueAsBit("Sentinel");
    if (ASent != BSent)
      return ASent ? -1 : 1;

    // Compare options by name, unless they are sentinels.
    if (!ASent)
      if (int Cmp = StrCmpOptionName(A->getValueAsString("Name").c_str(),
                                     B->getValueAsString("Name").c_str()))
      return Cmp;

    if (!ASent) {
      ... the loop over the prefixes ...
    }

    // Then by the kind precedence;
    int APrec = A->getValueAsDef("Kind")->getValueAsInt("Precedence");
    int BPrec = B->getValueAsDef("Kind")->getValueAsInt("Precedence");
    if (APrec == BPrec &&
        A->getValueAsListOfStrings("Prefixes") ==
        B->getValueAsListOfStrings("Prefixes")) {
      PrintError(A->getLoc(), Twine("Option is equivilent to"));
      PrintError(B->getLoc(), Twine("Other defined here"));
      PrintFatalError("Equivalent Options found.");
    }
    return APrec < BPrec ? -1 : 1;
  }
  \<close>
  The comparison of the two precedences is the one of signed 32-bit integers.
\<close>

definition CompareOptionRecords :: "bool \<Rightarrow> Record \<Rightarrow> Record \<Rightarrow> error + int" where
  "CompareOptionRecords sc A B =
     (let ASent = Sentinel (Kind A); BSent = Sentinel (Kind B) in
      if ASent \<noteq> BSent then Inr (if ASent then - 1 else 1)
      else if \<not> ASent \<and> StrCmpOptionName sc (Name A) (Name B) \<noteq> 0
        then Inr (StrCmpOptionName sc (Name A) (Name B))
      else
        case (if \<not> ASent then ComparePrefixes sc (Prefixes A) (Prefixes B) else None) of
          Some Cmp \<Rightarrow> Inr Cmp
        | None \<Rightarrow>
            if Prec A = Prec B \<and> Prefixes A = Prefixes B
              then Inl (FatalError ''Equivalent Options found.'')
            else Inr (if Prec A <s Prec B then - 1 else 1))"


section \<open>The search list (spec, sections 3 and 4.2)\<close>

text \<open>
  The header declares \<^verbatim>\<open>class HeaderSearch;\<close> and uses it as a parameter of
  \<^verbatim>\<open>LookupFile\<close>; the search list itself and its lookup are not among the sources.
  What follows is written from the spec's sections 3 and 4.2.
\<close>

text \<open>
  Modelled from the spec: the include kind, \<open>includeKind \<in> {Angled, Quoted}\<close>, an input
  of \<^verbatim>\<open>resolve\<close> (section 4.2), which is missing from the sources.
\<close>

datatype IncludeKind = Angled | Quoted

text \<open>
  Modelled from the spec: SearchPathEntry (section 3), missing from the sources as a
  type of its own: a tagged union of \<open>NormalDirectory {dir, characteristic}\<close> and
  \<open>HeaderMapEntry {map, characteristic, isIndexMap}\<close>. A directory is identified by its
  canonical path; the header map collaborator is the type parameter \<open>'m\<close>.
\<close>

datatype 'm SearchPathEntry =
    NormalDirectory string CharacteristicKind
  | HeaderMapEntry 'm CharacteristicKind bool

text \<open>Modelled from the spec: the characteristic attached to an entry (section 3).\<close>

fun entryCharacteristic :: "'m SearchPathEntry \<Rightarrow> CharacteristicKind" where
  "entryCharacteristic (NormalDirectory dir c) = c"
| "entryCharacteristic (HeaderMapEntry hm c isIndexMap) = c"

text \<open>
  Modelled from the spec: the success record of LookupResult (section 3), missing from
  the sources: \<open>{file, searchPath, relativePath, isSystemFramework, characteristic}\<close>.
  The file handle is the type parameter \<open>'f\<close>.
\<close>

record 'f LookupSuccess =
  fileEntry :: 'f
  searchPath :: string
  relativePath :: string
  isSystemFramework :: bool
  characteristic :: CharacteristicKind

text \<open>
  Modelled from the spec: LookupResult (section 3): the success record, or the
  \<open>NotFound\<close> sentinel.
\<close>

datatype 'f LookupResult = Found "'f LookupSuccess" | NotFound

text \<open>
  Modelled from the spec: what \<^verbatim>\<open>lookupFile\<close> yields on a hit (section 4.1): the
  file, the search path, the relative path and the system-framework flag.
\<close>

record 'f EntryHit =
  hitFile :: 'f
  hitSearchPath :: string
  hitRelativePath :: string
  hitSystemFramework :: bool

text \<open>
  Modelled from the spec: the collaborators \<^verbatim>\<open>resolve\<close> consults (sections 4.1 and
  6). \<open>statFile\<close> is the file cache's \<open>statFile(dirHandle, relativeName)\<close>.
  \<open>lookupFile\<close> is the per-entry lookup of section 4.1, whose body
  (\<^verbatim>\<open>DirectoryLookup::LookupFile\<close>) is missing from the sources: it is a parameter,
  so that what is proved of \<^verbatim>\<open>resolve\<close> holds of every per-entry lookup.
\<close>

record ('m, 'f) Collaborators =
  statFile :: "string \<Rightarrow> string \<Rightarrow> 'f option"
  lookupFile :: "'m SearchPathEntry \<Rightarrow> string \<Rightarrow> 'f EntryHit option"

text \<open>
  Modelled from the spec: the optional input \<open>includingDir\<close> of \<^verbatim>\<open>resolve\<close>
  (section 4.2), with the characteristic of the including file, which step 1 hands on.
\<close>

record IncludingDir =
  incDir :: string
  incCharacteristic :: CharacteristicKind

text \<open>
  Modelled from the spec: SearchList (section 3), missing from the sources: the ordered
  entries, for each index whether the entry is quote-only, the start index for angled
  includes, and the two caches of section 4.2: the shared one keyed by
  \<open>(filename, startIndex)\<close> and the one of step 1 keyed by
  \<open>(filename, includingDir)\<close>.
\<close>

record ('m, 'f) SearchList =
  entries :: "'m SearchPathEntry list"
  quoteOnly :: "nat \<Rightarrow> bool"
  angledStart :: nat
  cache :: "string \<times> nat \<rightharpoonup> 'f LookupResult"
  dirCache :: "string \<times> string \<rightharpoonup> 'f LookupResult"

text \<open>
  Modelled from the spec: the LookupResult produced through an entry (section 3,
  DirCharacteristic: propagated unchanged into every result produced through the entry).
\<close>

definition entryResult :: "'m SearchPathEntry \<Rightarrow> 'f EntryHit \<Rightarrow> 'f LookupResult" where
  "entryResult e h =
     Found \<lparr>fileEntry = hitFile h, searchPath = hitSearchPath h,
       relativePath = hitRelativePath h, isSystemFramework = hitSystemFramework h,
       characteristic = entryCharacteristic e\<rparr>"

text \<open>
  Modelled from the spec: step 3 of \<^verbatim>\<open>resolve\<close> skips an entry that is marked
  quote-only when \<open>includeKind = Angled\<close>.
\<close>

definition skipped :: "(nat \<Rightarrow> bool) \<Rightarrow> IncludeKind \<Rightarrow> nat \<Rightarrow> bool" where
  "skipped qo kind i = (qo i \<and> kind = Angled)"

text \<open>
  Modelled from the spec: steps 3 and 4 of \<^verbatim>\<open>resolve\<close>, missing from the sources.
  The entries from index \<open>i\<close> on are scanned in configured order; the first hit ends the
  scan; no hit gives \<open>NotFound\<close>.
\<close>

fun scan :: "('m, 'f) Collaborators \<Rightarrow> (nat \<Rightarrow> bool) \<Rightarrow> IncludeKind \<Rightarrow> string \<Rightarrow> nat \<Rightarrow>
    'm SearchPathEntry list \<Rightarrow> 'f LookupResult" where
  "scan env qo kind filename i [] = NotFound"
| "scan env qo kind filename i (e # es) =
     (if skipped qo kind i then scan env qo kind filename (Suc i) es
      else case lookupFile env e filename of
             Some h \<Rightarrow> entryResult e h
           | None \<Rightarrow> scan env qo kind filename (Suc i) es)"

text \<open>
  Modelled from the spec: step 2 of \<^verbatim>\<open>resolve\<close>: an angled include starts at the
  configured angled-start index, a quoted one at index 0.
\<close>

definition scanStart :: "('m, 'f) SearchList \<Rightarrow> IncludeKind \<Rightarrow> nat" where
  "scanStart sl kind = (case kind of Angled \<Rightarrow> angledStart sl | Quoted \<Rightarrow> 0)"

text \<open>
  Modelled from the spec: step 1 of \<^verbatim>\<open>resolve\<close>: the direct stat of
  \<open>includingDir + filename\<close>, its outcome cached under \<open>(filename, includingDir)\<close>. A
  hit has \<open>searchPath = includingDir\<close> and the characteristic of the including file.
\<close>

definition includerLookup :: "('m, 'f) Collaborators \<Rightarrow> ('m, 'f) SearchList \<Rightarrow> string \<Rightarrow>
    IncludingDir \<Rightarrow> 'f LookupResult \<times> ('m, 'f) SearchList" where
  "includerLookup env sl filename inc =
     (case dirCache sl (filename, incDir inc) of
        Some r \<Rightarrow> (r, sl)
      | None \<Rightarrow>
          let r = (case statFile env (incDir inc) filename of
                     Some fe \<Rightarrow>
                       Found \<lparr>fileEntry = fe, searchPath = incDir inc, relativePath = filename,
                         isSystemFramework = False, characteristic = incCharacteristic inc\<rparr>
                   | None \<Rightarrow> NotFound)
          in (r, sl\<lparr>dirCache := (dirCache sl)((filename, incDir inc) \<mapsto> r)\<rparr>))"

text \<open>
  Modelled from the spec: steps 2 to 5 of \<^verbatim>\<open>resolve\<close>: an outcome cached under
  \<open>(filename, startIndex)\<close> is reused; otherwise the entries are scanned from the start
  index and the outcome, hit or \<open>NotFound\<close>, is cached.
\<close>

definition searchListLookup :: "('m, 'f) Collaborators \<Rightarrow> ('m, 'f) SearchList \<Rightarrow> string \<Rightarrow>
    IncludeKind \<Rightarrow> 'f LookupResult \<times> ('m, 'f) SearchList" where
  "searchListLookup env sl filename kind =
     (let start = scanStart sl kind in
      case cache sl (filename, start) of
        Some r \<Rightarrow> (r, sl)
      | None \<Rightarrow>
          let r = scan env (quoteOnly sl) kind filename start (drop start (entries sl))
          in (r, sl\<lparr>cache := (cache sl)((filename, start) \<mapsto> r)\<rparr>))"

text \<open>
  Modelled from the spec: \<^verbatim>\<open>resolve(filename, includeKind, includingDir)\<close>
  (section 4.2), missing from the sources. It returns the result and the search list
  with its caches updated.
\<close>

definition resolve :: "('m, 'f) Collaborators \<Rightarrow> ('m, 'f) SearchList \<Rightarrow> string \<Rightarrow>
    IncludeKind \<Rightarrow> IncludingDir option \<Rightarrow> 'f LookupResult \<times> ('m, 'f) SearchList" where
  "resolve env sl filename kind includingDir =
     (case (kind, includingDir) of
        (Quoted, Some inc) \<Rightarrow>
          (case includerLookup env sl filename inc of
             (Found s, sl') \<Rightarrow> (Found s, sl')
           | (NotFound, sl') \<Rightarrow> searchListLookup env sl' filename kind)
      | _ \<Rightarrow> searchListLookup env sl filename kind)"

text \<open>
  Modelled from the spec: the entries \<^verbatim>\<open>resolve\<close> calls \<^verbatim>\<open>lookupFile\<close> on, unless
  an earlier hit ends the scan: those from the start index on that step 3 does not skip.
\<close>

definition scanned :: "('m, 'f) SearchList \<Rightarrow> IncludeKind \<Rightarrow> nat \<Rightarrow> bool" where
  "scanned sl kind i =
     (scanStart sl kind \<le> i \<and> i < length (entries sl) \<and> \<not> skipped (quoteOnly sl) kind i)"

text \<open>
  Modelled from the spec: the shared cache holds, for the key of this query, either
  nothing or the outcome of the scan of this query (step 5).
\<close>

definition cacheAgrees :: "('m, 'f) Collaborators \<Rightarrow> ('m, 'f) SearchList \<Rightarrow> string \<Rightarrow>
    IncludeKind \<Rightarrow> bool" where
  "cacheAgrees env sl filename kind =
     (case cache sl (filename, scanStart sl kind) of
        None \<Rightarrow> True
      | Some r \<Rightarrow>
          r = scan env (quoteOnly sl) kind filename (scanStart sl kind)
                (drop (scanStart sl kind) (entries sl)))"

text \<open>
  Modelled from the spec: step 1 of \<^verbatim>\<open>resolve\<close> does not apply (the include is
  angled, or there is no including directory) or misses.
\<close>

definition includerMisses :: "('m, 'f) Collaborators \<Rightarrow> ('m, 'f) SearchList \<Rightarrow> string \<Rightarrow>
    IncludeKind \<Rightarrow> IncludingDir option \<Rightarrow> bool" where
  "includerMisses env sl filename kind includingDir =
     (case (kind, includingDir) of
        (Quoted, Some inc) \<Rightarrow> fst (includerLookup env sl filename inc) = NotFound
      | _ \<Rightarrow> True)"

text \<open>
  Modelled from the spec: the configuration in which every quote-only entry precedes the
  angled-start index (step 2: an angled include skips the quote-only entries that
  precede it).
\<close>

definition quoteOnlyFirst :: "('m, 'f) SearchList \<Rightarrow> bool" where
  "quoteOnlyFirst sl =
     list_all (\<lambda>i. \<not> quoteOnly sl i) [angledStart sl ..< length (entries sl)]"

text \<open>
  Modelled from the spec: the cache invariant of a session: the shared cache holds
  nothing but outcomes of the scans of their keys (step 5).
\<close>

definition cacheValid :: "('m, 'f) Collaborators \<Rightarrow> ('m, 'f) SearchList \<Rightarrow> bool" where
  "cacheValid env sl = (\<forall>filename kind. cacheAgrees env sl filename kind)"

text \<open>
  Modelled from the spec: the entries of the example of section 8 (order precedence),
  \<open>[{"/a", User}, {"/b", System}]\<close>.
\<close>

definition example_entries :: "nat SearchPathEntry list" where
  "example_entries = [NormalDirectory ''/a'' C_User, NormalDirectory ''/b'' C_System]"

text \<open>
  Modelled from the spec: the search list of the example of section 8 in a fresh
  session: no entry is quote-only and both caches are empty.
\<close>

definition example_list :: "(nat, string) SearchList" where
  "example_list =
     \<lparr>entries = example_entries, quoteOnly = (\<lambda>i. False), angledStart = 0,
      cache = Map.empty, dirCache = Map.empty\<rparr>"

text \<open>
  Modelled from the spec: the collaborators of the example of section 8: both
  directories contain \<open>x.h\<close> and nothing else.
\<close>

definition example_env :: "(nat, string) Collaborators" where
  "example_env =
     \<lparr>statFile = (\<lambda>dir name. None),
      lookupFile = (\<lambda>e name. case e of
         NormalDirectory dir c \<Rightarrow>
           if name = ''x.h''
           then Some \<lparr>hitFile = dir @ ''/'' @ name, hitSearchPath = dir,
                  hitRelativePath = name, hitSystemFramework = False\<rparr>
           else None
       | HeaderMapEntry hm c isIndexMap \<Rightarrow> None)\<rparr>"


text \<open>
  Modelled from the spec: a search list whose first entry is quote-only and whose
  angled-start index is 0 (section 3 puts no condition on where the quote-only entries
  stand); both directories contain \<open>x.h\<close>.
\<close>

definition stale_entries :: "nat SearchPathEntry list" where
  "stale_entries = [NormalDirectory ''/q'' C_User, NormalDirectory ''/b'' C_System]"

text \<open>Modelled from the spec: that search list in a fresh session.\<close>

definition stale_list :: "(nat, string) SearchList" where
  "stale_list =
     \<lparr>entries = stale_entries, quoteOnly = (\<lambda>i. i = 0), angledStart = 0,
      cache = Map.empty, dirCache = Map.empty\<rparr>"

text \<open>
  Modelled from the spec: the session after the angled lookup of \<open>x.h\<close>, which skips the
  quote-only entry and caches its outcome under \<open>("x.h", 0)\<close>.
\<close>

definition stale_session :: "(nat, string) SearchList" where
  "stale_session = snd (resolve example_env stale_list ''x.h'' Angled None)"

text \<open>
  Modelled from the spec: a session, the search list after a sequence of
  \<^verbatim>\<open>resolve\<close> calls (section 2: per-include-directive calls on one search list).
\<close>

fun resolveAll :: "('m, 'f) Collaborators \<Rightarrow> ('m, 'f) SearchList \<Rightarrow>
    (string \<times> IncludeKind \<times> IncludingDir option) list \<Rightarrow> ('m, 'f) SearchList" where
  "resolveAll env sl [] = sl"
| "resolveAll env sl ((filename, kind, includingDir) # qs) =
     resolveAll env (snd (resolve env sl filename kind includingDir)) qs"

section \<open>Properties of DirectoryLookup\<close>

lemma LookupType_cast_value: "LookupType_cast (LookupType_value t) = t"
  by (cases t) (simp_all add: LookupType_cast_def)

lemma CharacteristicKind_cast_value:
  "CharacteristicKind_cast (word_of_nat (CharacteristicKind_value DT)) = DT"
  by (cases DT) (simp_all add: CharacteristicKind_cast_def)

lemma getLookupType_ctor:
  "getLookupType (DirectoryLookup_dir dir DT isFramework) = LT_NormalDir"
  "getLookupType (DirectoryLookup_map hm DT isIndex) = LT_HeaderMap"
  by (simp_all add: getLookupType_def DirectoryLookup_dir_def DirectoryLookup_map_def
      LookupType_cast_def)

text \<open>
  The members of the class are private and it has no mutating operation, so an object is
  what one of the two constructors built (or a copy of it). The constructors establish
  \<open>discriminated\<close>, and under it neither accessor reads the inactive union member.
\<close>

lemma discriminated_ctor:
  "discriminated (DirectoryLookup_dir dir DT isFramework)"
  "discriminated (DirectoryLookup_map hm DT isIndex)"
  by (simp_all add: discriminated_def DirectoryLookup_dir_def DirectoryLookup_map_def)

lemma discriminated_no_fault:
  assumes "discriminated d"
  shows "getDir d = Inr (case u d of Dir p \<Rightarrow> p | Map _ \<Rightarrow> None)"
    and "getHeaderMap d = Inr (case u d of Map p \<Rightarrow> p | Dir _ \<Rightarrow> None)"
  using assms
  by (cases "u d"; simp add: discriminated_def getDir_def getHeaderMap_def isNormalDir_def
      isHeaderMap_def getLookupType_def LookupType_cast_def)+

text \<open>
  C4: the variant accessors never fault. On an entry built as a normal directory
  \<^verbatim>\<open>getDir()\<close> returns the stored directory pointer and \<^verbatim>\<open>getHeaderMap()\<close> the null
  pointer; on an entry built from a header map \<^verbatim>\<open>getHeaderMap()\<close> returns the stored
  map pointer and \<^verbatim>\<open>getDir()\<close> the null pointer. No result is the fault of reading the
  inactive union member.
\<close>

theorem getDir_getHeaderMap_total:
  "getDir (DirectoryLookup_dir dir DT isFramework :: ('d, 'm) DirectoryLookup) = Inr dir \<and>
   getHeaderMap (DirectoryLookup_dir dir DT isFramework :: ('d, 'm) DirectoryLookup) = Inr None \<and>
   getDir (DirectoryLookup_map hm DT isIndex :: ('d, 'm) DirectoryLookup) = Inr None \<and>
   getHeaderMap (DirectoryLookup_map hm DT isIndex :: ('d, 'm) DirectoryLookup) = Inr hm"
  by (simp add: getDir_def getHeaderMap_def isNormalDir_def isHeaderMap_def getLookupType_ctor)
    (simp add: DirectoryLookup_dir_def DirectoryLookup_map_def)

text \<open>
  C5: exactly one variant is live. For every state of the object \<^verbatim>\<open>isNormalDir()\<close>
  and \<^verbatim>\<open>isHeaderMap()\<close> return opposite values, so no operation can end in a state
  where both or neither hold. The directory constructor gives a normal directory, the
  header map constructor a header map, and in both the discriminant names the union
  member that was written.
\<close>

theorem one_variant_live:
  "isNormalDir d = (\<not> isHeaderMap d) \<and>
   isNormalDir (DirectoryLookup_dir dir DT isFramework :: ('d, 'm) DirectoryLookup) \<and>
   \<not> isHeaderMap (DirectoryLookup_dir dir DT isFramework :: ('d, 'm) DirectoryLookup) \<and>
   discriminated (DirectoryLookup_dir dir DT isFramework :: ('d, 'm) DirectoryLookup) \<and>
   isHeaderMap (DirectoryLookup_map hm DT isIndex :: ('d, 'm) DirectoryLookup) \<and>
   \<not> isNormalDir (DirectoryLookup_map hm DT isIndex :: ('d, 'm) DirectoryLookup) \<and>
   discriminated (DirectoryLookup_map hm DT isIndex :: ('d, 'm) DirectoryLookup)"
proof -
  have "isNormalDir d = (\<not> isHeaderMap d)"
    by (simp add: isNormalDir_def isHeaderMap_def getLookupType_def LookupType_cast_def)
  then show ?thesis
    by (simp add: isNormalDir_def isHeaderMap_def getLookupType_ctor discriminated_ctor)
qed

text \<open>
  C6: the argument \<^verbatim>\<open>isFramework\<close> of the directory constructor is not stored. The
  objects built with \<^verbatim>\<open>true\<close> and with \<^verbatim>\<open>false\<close> are equal, field by field, so
  every accessor returns the same on both: \<^verbatim>\<open>getLookupType\<close>, \<^verbatim>\<open>getDir\<close>,
  \<^verbatim>\<open>getHeaderMap\<close>, \<^verbatim>\<open>isNormalDir\<close>, \<^verbatim>\<open>isHeaderMap\<close>,
  \<^verbatim>\<open>getDirCharacteristic\<close>, \<^verbatim>\<open>isIndexHeaderMap\<close>, and \<^verbatim>\<open>getName\<close>, which the
  header only declares: whatever function of the object it is.
\<close>

theorem isFramework_not_stored:
  fixes dir :: "'d option" and getName :: "('d, 'm) DirectoryLookup \<Rightarrow> 'n"
  shows
    "(let T = DirectoryLookup_dir dir DT True; F = DirectoryLookup_dir dir DT False in
      T = F \<and>
      getLookupType T = getLookupType F \<and>
      getName T = getName F \<and>
      getDir T = getDir F \<and>
      getHeaderMap T = getHeaderMap F \<and>
      isNormalDir T = isNormalDir F \<and>
      isHeaderMap T = isHeaderMap F \<and>
      getDirCharacteristic T = getDirCharacteristic F \<and>
      isIndexHeaderMap T = isIndexHeaderMap F)"
proof -
  have "(DirectoryLookup_dir dir DT True :: ('d, 'm) DirectoryLookup) =
      DirectoryLookup_dir dir DT False"
    by (simp add: DirectoryLookup_dir_def)
  then show ?thesis by (simp add: Let_def)
qed

text \<open>
  C7: the characteristic given to either constructor, one of the four values of the
  2-bit field, is what \<^verbatim>\<open>getDirCharacteristic()\<close> returns.
\<close>

theorem getDirCharacteristic_ctor:
  "getDirCharacteristic (DirectoryLookup_dir dir DT isFramework :: ('d, 'm) DirectoryLookup) = DT \<and>
   getDirCharacteristic (DirectoryLookup_map hm DT isIndex :: ('d, 'm) DirectoryLookup) = DT"
  by (simp add: getDirCharacteristic_def DirectoryLookup_dir_def DirectoryLookup_map_def
      CharacteristicKind_cast_value)

text \<open>
  C10: \<^verbatim>\<open>isIndexHeaderMap()\<close> is false on every entry built as a normal directory, is
  the flag given to the constructor on every entry built from a header map, and is true
  only of header map entries.
\<close>

theorem isIndexHeaderMap_ctor:
  "isIndexHeaderMap (DirectoryLookup_dir dir DT isFramework :: ('d, 'm) DirectoryLookup) = False \<and>
   isIndexHeaderMap (DirectoryLookup_map hm DT isIndex :: ('d, 'm) DirectoryLookup) = isIndex \<and>
   (isIndexHeaderMap (d :: ('d, 'm) DirectoryLookup) \<longrightarrow> isHeaderMap d)"
  by (simp add: isIndexHeaderMap_def isHeaderMap_def getLookupType_ctor)
    (simp add: DirectoryLookup_dir_def DirectoryLookup_map_def)

theorem isIndexHeaderMap_ctor_witness:
  "isIndexHeaderMap (DirectoryLookup_map (Some (7 :: nat)) C_System True :: (nat, nat) DirectoryLookup) \<and>
   isHeaderMap (DirectoryLookup_map (Some (7 :: nat)) C_System True :: (nat, nat) DirectoryLookup) \<and>
   \<not> isIndexHeaderMap (DirectoryLookup_map (Some (7 :: nat)) C_System False :: (nat, nat) DirectoryLookup) \<and>
   \<not> isIndexHeaderMap (DirectoryLookup_dir (Some (3 :: nat)) C_User True :: (nat, nat) DirectoryLookup)"
  using isIndexHeaderMap_ctor [where ?'d = nat and ?'m = nat and hm = "Some 7" and isIndex = True
      and DT = C_System and d = "DirectoryLookup_map (Some 7) C_System True"]
    isIndexHeaderMap_ctor [where ?'d = nat and ?'m = nat and hm = "Some 7" and isIndex = False
      and DT = C_System and d = "DirectoryLookup_map (Some 7) C_System True"]
    isIndexHeaderMap_ctor [where ?'d = nat and ?'m = nat and dir = "Some 3" and isFramework = True
      and DT = C_User and d = "DirectoryLookup_map (Some 7) C_System True"]
  by simp

section \<open>Properties of the option comparison\<close>

subsection \<open>StrCmpOptionName\<close>

lemma StrCmpOptionName_Nil_Nil: "StrCmpOptionName sc [] [] = 0"
  by (subst StrCmpOptionName.simps) (simp add: deref_def)

lemma StrCmpOptionName_Nil_Cons:
  "StrCmpOptionName sc [] (b # B) = (if b = NUL then 0 else 1)"
  by (subst StrCmpOptionName.simps) (simp add: deref_def StrCmpOptionName_Nil_Nil)

lemma StrCmpOptionName_Cons_Nil:
  "StrCmpOptionName sc (a # A) [] = (if a = NUL then 0 else - 1)"
  by (subst StrCmpOptionName.simps) (simp add: deref_def StrCmpOptionName_Nil_Nil)

lemma StrCmpOptionName_Cons_Cons:
  "StrCmpOptionName sc (a # A) (b # B) =
     (if a = b then (if a = NUL then 0 else StrCmpOptionName sc A B)
      else if a = NUL then 1
      else if b = NUL then - 1
      else if char_less sc a b then - 1 else 1)"
  by (subst StrCmpOptionName.simps) (simp add: deref_def)

lemmas StrCmpOptionName_unfold =
  StrCmpOptionName_Nil_Nil StrCmpOptionName_Nil_Cons StrCmpOptionName_Cons_Nil
  StrCmpOptionName_Cons_Cons

lemma c_str_Nil: "c_str [] = []"
  by (simp add: c_str_def)

lemma c_str_Cons: "c_str (a # A) = (if a = NUL then [] else a # c_str A)"
  by (simp add: c_str_def)

lemma NUL_notin_c_str: "NUL \<notin> set (c_str A)"
  by (induction A) (simp_all add: c_str_Nil c_str_Cons)

text \<open>The function reads its arguments as C strings: nothing after a \<^verbatim>\<open>'\0'\<close>.\<close>

lemma StrCmpOptionName_c_str:
  "StrCmpOptionName sc A B = StrCmpOptionName sc (c_str A) (c_str B)"
proof (induction A arbitrary: B)
  case Nil
  show ?case by (cases B) (simp_all add: StrCmpOptionName_unfold c_str_Nil c_str_Cons)
next
  case (Cons a A)
  show ?case
  proof (cases B)
    case Nil
    then show ?thesis by (simp add: StrCmpOptionName_unfold c_str_Nil c_str_Cons)
  next
    case (Cons b B')
    then show ?thesis
      using Cons.IH [of B'] by (simp add: StrCmpOptionName_unfold c_str_Nil c_str_Cons)
  qed
qed

lemma StrCmpOptionName_append:
  "NUL \<notin> set p \<Longrightarrow> StrCmpOptionName sc (p @ X) (p @ Y) = StrCmpOptionName sc X Y"
  by (induction p) (auto simp: StrCmpOptionName_unfold)

lemma StrCmpOptionName_refl: "StrCmpOptionName sc A A = 0"
  by (induction A) (simp_all add: StrCmpOptionName_unfold)

lemma StrCmpOptionName_zero_iff: "StrCmpOptionName sc A B = 0 \<longleftrightarrow> c_str A = c_str B"
proof (induction A arbitrary: B)
  case Nil
  show ?case by (cases B) (simp_all add: StrCmpOptionName_unfold c_str_Nil c_str_Cons)
next
  case (Cons a A)
  show ?case
    using Cons.IH by (cases B) (auto simp: StrCmpOptionName_unfold c_str_Nil c_str_Cons)
qed

lemma StrCmpOptionName_strict_prefix:
  assumes "strict_prefix (c_str A) (c_str B)"
  shows "StrCmpOptionName sc A B = 1"
proof -
  from assms obtain b Y where B: "c_str B = c_str A @ b # Y"
    by (auto simp: strict_prefix_def prefix_def neq_Nil_conv)
  have "b \<noteq> NUL" using NUL_notin_c_str [of B] by (auto simp: B)
  have "StrCmpOptionName sc A B = StrCmpOptionName sc (c_str A @ []) (c_str A @ b # Y)"
    using StrCmpOptionName_c_str [of sc A B] by (simp add: B)
  also have "\<dots> = StrCmpOptionName sc [] (b # Y)"
    by (rule StrCmpOptionName_append) (rule NUL_notin_c_str)
  finally show ?thesis using \<open>b \<noteq> NUL\<close> by (simp add: StrCmpOptionName_unfold)
qed

lemma StrCmpOptionName_strict_extension:
  assumes "strict_prefix (c_str B) (c_str A)"
  shows "StrCmpOptionName sc A B = - 1"
proof -
  from assms obtain a X where A: "c_str A = c_str B @ a # X"
    by (auto simp: strict_prefix_def prefix_def neq_Nil_conv)
  have "a \<noteq> NUL" using NUL_notin_c_str [of A] by (auto simp: A)
  have "StrCmpOptionName sc A B = StrCmpOptionName sc (c_str B @ a # X) (c_str B @ [])"
    using StrCmpOptionName_c_str [of sc A B] by (simp add: A)
  also have "\<dots> = StrCmpOptionName sc (a # X) []"
    by (rule StrCmpOptionName_append) (rule NUL_notin_c_str)
  finally show ?thesis using \<open>a \<noteq> NUL\<close> by (simp add: StrCmpOptionName_unfold)
qed

lemma StrCmpOptionName_first_difference:
  assumes "c_str A = p @ a # X" and "c_str B = p @ b # Y" and "a \<noteq> b"
  shows "StrCmpOptionName sc A B = (if char_less sc a b then - 1 else 1)"
proof -
  have nul: "NUL \<notin> set p" "a \<noteq> NUL" "b \<noteq> NUL"
    using NUL_notin_c_str [of A] NUL_notin_c_str [of B] assms by auto
  have "StrCmpOptionName sc A B = StrCmpOptionName sc (p @ a # X) (p @ b # Y)"
    using StrCmpOptionName_c_str [of sc A B] assms by simp
  also have "\<dots> = StrCmpOptionName sc (a # X) (b # Y)"
    using nul by (simp add: StrCmpOptionName_append)
  finally show ?thesis using nul assms by (simp add: StrCmpOptionName_unfold)
qed

text \<open>
  C9: \<^verbatim>\<open>StrCmpOptionName(A, B)\<close> returns 0 exactly when \<open>A\<close> and \<open>B\<close> are equal as C
  strings; it returns 1 when \<open>A\<close> is a proper prefix of \<open>B\<close> and -1 when \<open>B\<close> is a
  proper prefix of \<open>A\<close>, so a proper prefix sorts after its extension; and when the two
  strings first differ in the chars \<open>a\<close> of \<open>A\<close> and \<open>b\<close> of \<open>B\<close>, it returns -1 if
  \<open>a < b\<close> and 1 otherwise.
\<close>

theorem StrCmpOptionName_cases:
  "(StrCmpOptionName sc A B = 0 \<longleftrightarrow> c_str A = c_str B) \<and>
   (strict_prefix (c_str A) (c_str B) \<longrightarrow> StrCmpOptionName sc A B = 1) \<and>
   (strict_prefix (c_str B) (c_str A) \<longrightarrow> StrCmpOptionName sc A B = - 1) \<and>
   (\<forall>p a b X Y. c_str A = p @ a # X \<and> c_str B = p @ b # Y \<and> a \<noteq> b \<longrightarrow>
      StrCmpOptionName sc A B = (if char_less sc a b then - 1 else 1))"
  using StrCmpOptionName_zero_iff StrCmpOptionName_strict_prefix
    StrCmpOptionName_strict_extension StrCmpOptionName_first_difference
  by blast

theorem StrCmpOptionName_cases_witness:
  "c_str ''ab'' = c_str ''ab'' \<and> StrCmpOptionName True ''ab'' ''ab'' = 0 \<and>
   strict_prefix (c_str ''ab'') (c_str ''abc'') \<and> StrCmpOptionName True ''ab'' ''abc'' = 1 \<and>
   StrCmpOptionName True ''abc'' ''ab'' = - 1 \<and>
   c_str ''abc'' = ''ab'' @ CHR ''c'' # [] \<and> c_str ''abd'' = ''ab'' @ CHR ''d'' # [] \<and>
   char_less True CHR ''c'' CHR ''d'' \<and> StrCmpOptionName True ''abc'' ''abd'' = - 1"
proof -
  have c: "c_str ''abc'' = ''abc''" "c_str ''ab'' = ''ab''" "c_str ''abd'' = ''abd''"
    by (simp_all add: c_str_def NUL_def)
  have sp: "strict_prefix (c_str ''ab'') (c_str ''abc'')"
    unfolding c by (simp add: strict_prefix_def)
  have lt: "char_less True CHR ''c'' CHR ''d''"
    by (simp add: char_less_def char_value_def)
  have d: "c_str ''abc'' = ''ab'' @ CHR ''c'' # []" "c_str ''abd'' = ''ab'' @ CHR ''d'' # []"
    "CHR ''c'' \<noteq> CHR ''d''"
    unfolding c by simp_all
  have 1: "StrCmpOptionName True ''ab'' ''ab'' = 0"
    using StrCmpOptionName_cases [of True "''ab''" "''ab''"] by blast
  have 2: "StrCmpOptionName True ''ab'' ''abc'' = 1"
    using StrCmpOptionName_cases [of True "''ab''" "''abc''"] sp by blast
  have 3: "StrCmpOptionName True ''abc'' ''ab'' = - 1"
    using StrCmpOptionName_cases [of True "''abc''" "''ab''"] sp by blast
  have "StrCmpOptionName True ''abc'' ''abd'' =
      (if char_less True CHR ''c'' CHR ''d'' then - 1 else 1)"
    using StrCmpOptionName_cases [of True "''abc''" "''abd''"] d by blast
  with lt have 4: "StrCmpOptionName True ''abc'' ''abd'' = - 1" by simp
  show ?thesis using sp lt d(1,2) 1 2 3 4 by blast
qed


subsection \<open>CompareOptionRecords\<close>

lemma of_char_bounds: "0 \<le> (of_char c :: int)" "(of_char c :: int) < 256"
proof -
  have "(of_char c :: int) = int (of_char c)" by (simp add: of_nat_of_char)
  then show "0 \<le> (of_char c :: int)" "(of_char c :: int) < 256"
    using nat_of_char_less_256 [of c] by simp_all
qed

lemma char_value_inject: "char_value sc a = char_value sc b \<Longrightarrow> a = b"
  using of_char_bounds [of a] of_char_bounds [of b]
  by (auto simp: char_value_def split: if_splits)

lemma char_less_total:
  assumes "a \<noteq> b"
  shows "char_less sc b a = (\<not> char_less sc a b)"
proof -
  from assms have "char_value sc a \<noteq> char_value sc b" using char_value_inject by blast
  then show ?thesis by (auto simp: char_less_def)
qed

lemma StrCmpOptionName_antisym: "StrCmpOptionName sc B A = - StrCmpOptionName sc A B"
proof (induction A arbitrary: B)
  case Nil
  show ?case by (cases B) (simp_all add: StrCmpOptionName_unfold)
next
  case (Cons a A)
  show ?case
  proof (cases B)
    case Nil
    then show ?thesis by (simp add: StrCmpOptionName_unfold)
  next
    case (Cons b B')
    then show ?thesis
      using Cons.IH [of B'] char_less_total [of a b sc]
      by (auto simp add: StrCmpOptionName_unfold)
  qed
qed

lemma ComparePrefixes_antisym:
  "ComparePrefixes sc Q P = map_option uminus (ComparePrefixes sc P Q)"
proof (induction sc P Q rule: ComparePrefixes.induct)
  case (1 sc APre APrefixes BPre BPrefixes)
  then show ?case using StrCmpOptionName_antisym [of sc BPre APre] by simp
next
  case (2 sc BPrefixes)
  then show ?case by (cases BPrefixes) simp_all
next
  case (3 sc APrefixes)
  then show ?case by (cases APrefixes) simp_all
qed

lemma ComparePrefixes_refl: "ComparePrefixes sc P P = None"
  by (induction P) (simp_all add: StrCmpOptionName_refl)

text \<open>
  Two records whose precedences differ, as the 32-bit values the function compares, are
  ordered one way round: where both comparisons return, the results are opposite.
\<close>

lemma CompareOptionRecords_antisym:
  assumes "CompareOptionRecords sc A B = Inr x" and "CompareOptionRecords sc B A = Inr y"
    and "Prec A \<noteq> Prec B"
  shows "y = - x"
proof -
  have "sint (Prec A) \<noteq> sint (Prec B)" using assms(3) signed_word_eqI by blast
  then show ?thesis
    using assms StrCmpOptionName_antisym [of sc "Name B" "Name A"]
      ComparePrefixes_antisym [of sc "Prefixes B" "Prefixes A"]
    by (auto simp: CompareOptionRecords_def Let_def word_sless_alt
        split: if_splits option.splits)
qed

text \<open>
  Two records that agree on the name, the prefixes and the kind's sentinel bit and
  precedence: the comparison of the two ends in the fatal error, in either order.
\<close>

lemma CompareOptionRecords_equivalent:
  assumes "Name A = Name B" and "Prefixes A = Prefixes B"
    and "Sentinel (Kind A) = Sentinel (Kind B)"
    and "Precedence (Kind A) = Precedence (Kind B)"
  shows "CompareOptionRecords sc A B = Inl (FatalError ''Equivalent Options found.'')"
  using assms
  by (simp add: CompareOptionRecords_def Let_def Prec_def StrCmpOptionName_refl
      ComparePrefixes_refl)

text \<open>
  C8: antisymmetry of \<^verbatim>\<open>CompareOptionRecords\<close> on the pairs where it returns. It fails
  on two options of equal name and equal kind whose prefix lists have different lengths
  and agree on the shorter one, here \<open>["-"]\<close> and \<open>["-", "--"]\<close>: the loop over the
  prefixes ends without a difference, the lists are not equal, so there is no fatal
  error, and \<^verbatim>\<open>APrec < BPrec ? -1 : 1\<close> is 1 in both orders.
\<close>

theorem CompareOptionRecords_both_greater:
  "CompareOptionRecords sc
     \<lparr>Name = ''v'', Prefixes = [''-''], Kind = \<lparr>Sentinel = False, Precedence = 1\<rparr>\<rparr>
     \<lparr>Name = ''v'', Prefixes = [''-'', ''--''], Kind = \<lparr>Sentinel = False, Precedence = 1\<rparr>\<rparr>
     = Inr 1 \<and>
   CompareOptionRecords sc
     \<lparr>Name = ''v'', Prefixes = [''-'', ''--''], Kind = \<lparr>Sentinel = False, Precedence = 1\<rparr>\<rparr>
     \<lparr>Name = ''v'', Prefixes = [''-''], Kind = \<lparr>Sentinel = False, Precedence = 1\<rparr>\<rparr>
     = Inr 1"
  by (simp add: CompareOptionRecords_def Prec_def StrCmpOptionName_refl)

section \<open>Properties of the search list\<close>

lemma scan_first_hit:
  assumes "k < length es" and "\<not> skipped qo kind (i + k)"
    and "lookupFile env (es ! k) filename = Some h"
    and "\<And>m. m < k \<Longrightarrow> skipped qo kind (i + m) \<or> lookupFile env (es ! m) filename = None"
  shows "scan env qo kind filename i es = entryResult (es ! k) h"
  using assms
proof (induction es arbitrary: i k)
  case Nil
  then show ?case by simp
next
  case (Cons e es)
  show ?case
  proof (cases k)
    case 0
    with Cons.prems show ?thesis by simp
  next
    case (Suc k')
    have head: "skipped qo kind i \<or> lookupFile env e filename = None"
      using Cons.prems(4) [of 0] Suc by simp
    have "scan env qo kind filename (Suc i) es = entryResult (es ! k') h"
    proof (rule Cons.IH)
      show "k' < length es" using Cons.prems(1) Suc by simp
      show "\<not> skipped qo kind (Suc i + k')" using Cons.prems(2) Suc by simp
      show "lookupFile env (es ! k') filename = Some h" using Cons.prems(3) Suc by simp
      show "skipped qo kind (Suc i + m) \<or> lookupFile env (es ! m) filename = None"
        if "m < k'" for m
        using Cons.prems(4) [of "Suc m"] that Suc by simp
    qed
    with head Suc show ?thesis by auto
  qed
qed

lemma includerLookup_frame:
  "entries (snd (includerLookup env sl filename inc)) = entries sl \<and>
   quoteOnly (snd (includerLookup env sl filename inc)) = quoteOnly sl \<and>
   angledStart (snd (includerLookup env sl filename inc)) = angledStart sl \<and>
   cache (snd (includerLookup env sl filename inc)) = cache sl"
  by (simp add: includerLookup_def Let_def split: option.splits)

lemma searchListLookup_result:
  assumes "cacheAgrees env sl filename kind"
  shows "fst (searchListLookup env sl filename kind) =
    scan env (quoteOnly sl) kind filename (scanStart sl kind)
      (drop (scanStart sl kind) (entries sl))"
  using assms
  by (simp add: searchListLookup_def cacheAgrees_def Let_def split: option.splits)

lemma searchListLookup_cong:
  assumes "entries sl' = entries sl" "quoteOnly sl' = quoteOnly sl"
    "angledStart sl' = angledStart sl" "cache sl' = cache sl"
  shows "fst (searchListLookup env sl' filename kind) =
    fst (searchListLookup env sl filename kind)"
  using assms
  by (simp add: searchListLookup_def scanStart_def Let_def
      split: option.splits IncludeKind.splits)

lemma resolve_result:
  assumes "includerMisses env sl filename kind includingDir"
  shows "fst (resolve env sl filename kind includingDir) =
    fst (searchListLookup env sl filename kind)"
proof (cases "kind = Quoted \<and> includingDir \<noteq> None")
  case False
  then show ?thesis
    by (auto simp: resolve_def split: IncludeKind.splits option.splits)
next
  case True
  then obtain inc where inc: "kind = Quoted" "includingDir = Some inc" by auto
  obtain r sl' where il: "includerLookup env sl filename inc = (r, sl')"
    by (cases "includerLookup env sl filename inc")
  have r: "r = NotFound" using assms il by (simp add: includerMisses_def inc)
  have "fst (searchListLookup env sl' filename kind) =
      fst (searchListLookup env sl filename kind)"
    using includerLookup_frame [of env sl filename inc] il
    by (intro searchListLookup_cong) simp_all
  then show ?thesis by (simp add: resolve_def inc il r)
qed

lemma first_scanned_hit:
  assumes "scanned sl kind i" and "lookupFile env (entries sl ! i) filename = Some hi"
  shows "\<exists>k h. k \<le> i \<and> scanned sl kind k \<and>
    lookupFile env (entries sl ! k) filename = Some h \<and>
    (\<forall>m<k. scanned sl kind m \<longrightarrow> lookupFile env (entries sl ! m) filename = None)"
proof -
  define P where
    "P m \<longleftrightarrow> scanned sl kind m \<and> lookupFile env (entries sl ! m) filename \<noteq> None" for m
  define k where "k = (LEAST m. P m)"
  have Pi: "P i" using assms by (simp add: P_def)
  have Pk: "P k" unfolding k_def using Pi by (rule LeastI)
  have le: "k \<le> i" unfolding k_def using Pi by (rule Least_le)
  have least: "\<not> P m" if "m < k" for m
    using that not_less_Least unfolding k_def by blast
  from Pk obtain h where "lookupFile env (entries sl ! k) filename = Some h"
    by (auto simp: P_def)
  with Pk le least show ?thesis unfolding P_def by blast
qed

lemma scan_no_hit:
  assumes "\<And>m. m < length es \<Longrightarrow>
    skipped qo kind (i + m) \<or> lookupFile env (es ! m) filename = None"
  shows "scan env qo kind filename i es = NotFound"
  using assms
proof (induction es arbitrary: i)
  case Nil
  then show ?case by simp
next
  case (Cons e es)
  have head: "skipped qo kind i \<or> lookupFile env e filename = None"
    using Cons.prems [of 0] by simp
  have "scan env qo kind filename (Suc i) es = NotFound"
    using Cons.prems [of "Suc m" for m] by (intro Cons.IH) simp
  with head show ?case by auto
qed

lemma stale_session_eq:
  "stale_session = stale_list\<lparr>cache := [(''x.h'', 0) \<mapsto>
     Found \<lparr>fileEntry = ''/b/x.h'', searchPath = ''/b'', relativePath = ''x.h'',
       isSystemFramework = False, characteristic = C_System\<rparr>]\<rparr>"
  by (simp add: stale_session_def resolve_def searchListLookup_def scanStart_def
      stale_list_def stale_entries_def skipped_def example_env_def entryResult_def Let_def)

text \<open>
  C1 as first stated, for every lookup and with no word on the cache, fails. The
  shared cache is keyed by \<open>(filename, startIndex)\<close> and not by the include kind. With
  the angled-start index 0 and a quote-only first entry, the angled lookup of \<open>x.h\<close>
  skips \<open>/q\<close>, finds the file under \<open>/b\<close> and caches that under \<open>("x.h", 0)\<close>. The
  quoted lookup of \<open>x.h\<close> that follows has the same key and is served from the cache:
  both entries are scanned for a quoted include and both hold the file, and the later
  one, \<open>/b\<close>, supplies the result.
\<close>

theorem resolve_stale_cache_counterexample:
  "includerMisses example_env stale_session ''x.h'' Quoted None \<and>
   scanned stale_session Quoted 0 \<and> scanned stale_session Quoted 1 \<and>
   lookupFile example_env (entries stale_session ! 0) ''x.h'' =
     Some \<lparr>hitFile = ''/q/x.h'', hitSearchPath = ''/q'', hitRelativePath = ''x.h'',
       hitSystemFramework = False\<rparr> \<and>
   lookupFile example_env (entries stale_session ! 1) ''x.h'' =
     Some \<lparr>hitFile = ''/b/x.h'', hitSearchPath = ''/b'', hitRelativePath = ''x.h'',
       hitSystemFramework = False\<rparr> \<and>
   fst (resolve example_env stale_session ''x.h'' Quoted None) =
     Found \<lparr>fileEntry = ''/b/x.h'', searchPath = ''/b'', relativePath = ''x.h'',
       isSystemFramework = False, characteristic = C_System\<rparr>"
  by (simp add: stale_session_eq includerMisses_def scanned_def scanStart_def skipped_def
      stale_list_def stale_entries_def example_env_def resolve_def searchListLookup_def)

text \<open>
  C1, amended: in a lookup where step 1 does not apply or misses, and where the shared
  cache holds under \<open>(filename, startIndex)\<close> either nothing or the outcome of this
  lookup's own scan, \<^verbatim>\<open>resolve\<close> returns the hit of the first scanned entry whose
  \<^verbatim>\<open>lookupFile\<close> hits, with that entry's characteristic: whenever a scanned entry
  \<open>i\<close> holds the file, the result comes from a scanned entry \<open>k \<le> i\<close> that holds it
  and before which no scanned entry holds it. So of two scanned entries that both hold
  the file the later one never supplies the result, whatever their characteristics,
  and a single hit, also at the last entry, is the result.
\<close>

theorem resolve_first_hit_wins:
  assumes "includerMisses env sl filename kind includingDir"
    and "cacheAgrees env sl filename kind"
    and "scanned sl kind i"
    and "lookupFile env (entries sl ! i) filename = Some hi"
  shows "\<exists>k h. k \<le> i \<and> scanned sl kind k \<and>
    lookupFile env (entries sl ! k) filename = Some h \<and>
    (\<forall>m<k. scanned sl kind m \<longrightarrow> lookupFile env (entries sl ! m) filename = None) \<and>
    fst (resolve env sl filename kind includingDir) = entryResult (entries sl ! k) h"
proof -
  let ?s = "scanStart sl kind"
  from first_scanned_hit [OF assms(3) assms(4)]
  obtain k h where k: "k \<le> i" "scanned sl kind k"
    "lookupFile env (entries sl ! k) filename = Some h"
    "\<forall>m<k. scanned sl kind m \<longrightarrow> lookupFile env (entries sl ! m) filename = None"
    by blast
  have bounds: "?s \<le> k" "k < length (entries sl)" "\<not> skipped (quoteOnly sl) kind k"
    using k(2) by (simp_all add: scanned_def)
  have "scan env (quoteOnly sl) kind filename ?s (drop ?s (entries sl)) =
      entryResult (drop ?s (entries sl) ! (k - ?s)) h"
  proof (rule scan_first_hit)
    show "k - ?s < length (drop ?s (entries sl))" using bounds by simp
    show "\<not> skipped (quoteOnly sl) kind (?s + (k - ?s))" using bounds by simp
    show "lookupFile env (drop ?s (entries sl) ! (k - ?s)) filename = Some h"
      using bounds k(3) by simp
    show "skipped (quoteOnly sl) kind (?s + m) \<or>
        lookupFile env (drop ?s (entries sl) ! m) filename = None" if "m < k - ?s" for m
    proof -
      have "?s + m < k" using that by simp
      moreover have "?s + m < length (entries sl)" using \<open>?s + m < k\<close> bounds by simp
      ultimately show ?thesis using k(4) bounds by (auto simp: scanned_def)
    qed
  qed
  then have "fst (resolve env sl filename kind includingDir) = entryResult (entries sl ! k) h"
    using bounds
    by (simp add: resolve_result [OF assms(1)] searchListLookup_result [OF assms(2)])
  with k show ?thesis by (intro exI [of _ k] exI [of _ h]) simp
qed

text \<open>
  Two instances. The example of the spec's section 8 in a fresh session: with the
  entries \<open>[{"/a", User}, {"/b", System}]\<close>, both containing \<open>x.h\<close>, the angled lookup
  of \<open>x.h\<close> returns the copy under \<open>/a\<close> with the characteristic User. And a lookup
  served from the cache: in the session above the second angled lookup of \<open>x.h\<close>
  scans only \<open>/b\<close>, the single hit at the last entry, and returns it.
\<close>

theorem resolve_first_hit_wins_witness:
  "includerMisses example_env example_list ''x.h'' Angled None \<and>
   cacheAgrees example_env example_list ''x.h'' Angled \<and>
   scanned example_list Angled 1 \<and>
   lookupFile example_env (entries example_list ! 0) ''x.h'' =
     Some \<lparr>hitFile = ''/a/x.h'', hitSearchPath = ''/a'', hitRelativePath = ''x.h'',
       hitSystemFramework = False\<rparr> \<and>
   lookupFile example_env (entries example_list ! 1) ''x.h'' =
     Some \<lparr>hitFile = ''/b/x.h'', hitSearchPath = ''/b'', hitRelativePath = ''x.h'',
       hitSystemFramework = False\<rparr> \<and>
   fst (resolve example_env example_list ''x.h'' Angled None) =
     Found \<lparr>fileEntry = ''/a/x.h'', searchPath = ''/a'', relativePath = ''x.h'',
       isSystemFramework = False, characteristic = C_User\<rparr> \<and>
   includerMisses example_env stale_session ''x.h'' Angled None \<and>
   cacheAgrees example_env stale_session ''x.h'' Angled \<and>
   \<not> scanned stale_session Angled 0 \<and> scanned stale_session Angled 1 \<and>
   fst (resolve example_env stale_session ''x.h'' Angled None) =
     Found \<lparr>fileEntry = ''/b/x.h'', searchPath = ''/b'', relativePath = ''x.h'',
       isSystemFramework = False, characteristic = C_System\<rparr>"
proof -
  have h1: "includerMisses example_env example_list ''x.h'' Angled None"
    by (simp add: includerMisses_def)
  have h2: "cacheAgrees example_env example_list ''x.h'' Angled"
    by (simp add: cacheAgrees_def example_list_def)
  have h3: "scanned example_list Angled 0" and h4: "scanned example_list Angled 1"
    by (simp_all add: scanned_def scanStart_def skipped_def example_list_def
        example_entries_def)
  have h5: "lookupFile example_env (entries example_list ! 0) ''x.h'' =
     Some \<lparr>hitFile = ''/a/x.h'', hitSearchPath = ''/a'', hitRelativePath = ''x.h'',
       hitSystemFramework = False\<rparr>"
    by (simp add: example_env_def example_list_def example_entries_def)
  have h6: "lookupFile example_env (entries example_list ! 1) ''x.h'' =
     Some \<lparr>hitFile = ''/b/x.h'', hitSearchPath = ''/b'', hitRelativePath = ''x.h'',
       hitSystemFramework = False\<rparr>"
    by (simp add: example_env_def example_list_def example_entries_def)
  from resolve_first_hit_wins [OF h1 h2 h4 h6]
  obtain k h where k: "k \<le> 1" "scanned example_list Angled k"
    "lookupFile example_env (entries example_list ! k) ''x.h'' = Some h"
    "\<forall>m<k. scanned example_list Angled m \<longrightarrow>
       lookupFile example_env (entries example_list ! m) ''x.h'' = None"
    "fst (resolve example_env example_list ''x.h'' Angled None) =
       entryResult (entries example_list ! k) h"
    by blast
  have "k = 0"
  proof (rule ccontr)
    assume "k \<noteq> 0"
    then have "0 < k" by simp
    with k(4) h3 have "lookupFile example_env (entries example_list ! 0) ''x.h'' = None"
      by blast
    with h5 show False by simp
  qed
  with k(3,5) h5 have r1: "fst (resolve example_env example_list ''x.h'' Angled None) =
     Found \<lparr>fileEntry = ''/a/x.h'', searchPath = ''/a'', relativePath = ''x.h'',
       isSystemFramework = False, characteristic = C_User\<rparr>"
    by (simp add: entryResult_def example_list_def example_entries_def)
  have g1: "includerMisses example_env stale_session ''x.h'' Angled None"
    by (simp add: includerMisses_def)
  have g2: "cacheAgrees example_env stale_session ''x.h'' Angled"
    by (simp add: cacheAgrees_def stale_session_eq scanStart_def stale_list_def
        stale_entries_def skipped_def example_env_def entryResult_def)
  have g3: "\<not> scanned stale_session Angled 0" and g4: "scanned stale_session Angled 1"
    by (simp_all add: scanned_def stale_session_eq scanStart_def skipped_def stale_list_def
        stale_entries_def)
  have g6: "lookupFile example_env (entries stale_session ! 1) ''x.h'' =
     Some \<lparr>hitFile = ''/b/x.h'', hitSearchPath = ''/b'', hitRelativePath = ''x.h'',
       hitSystemFramework = False\<rparr>"
    by (simp add: example_env_def stale_session_eq stale_list_def stale_entries_def)
  from resolve_first_hit_wins [OF g1 g2 g4 g6]
  obtain k' h' where k': "k' \<le> 1" "scanned stale_session Angled k'"
    "lookupFile example_env (entries stale_session ! k') ''x.h'' = Some h'"
    "fst (resolve example_env stale_session ''x.h'' Angled None) =
       entryResult (entries stale_session ! k') h'"
    by blast
  have "k' = 1"
  proof (rule ccontr)
    assume "k' \<noteq> 1"
    with k'(1) have "k' = 0" by simp
    with k'(2) g3 show False by simp
  qed
  with k'(3,4) g6 have r2: "fst (resolve example_env stale_session ''x.h'' Angled None) =
     Found \<lparr>fileEntry = ''/b/x.h'', searchPath = ''/b'', relativePath = ''x.h'',
       isSystemFramework = False, characteristic = C_System\<rparr>"
    by (simp add: entryResult_def stale_session_eq stale_list_def stale_entries_def)
  from h1 h2 h4 h5 h6 r1 g1 g2 g3 g4 r2 show ?thesis by blast
qed

subsection \<open>The cache over a session\<close>

text \<open>
  When the condition \<open>cacheAgrees\<close> holds: of a query with nothing cached under its
  key; and of every query at every point of a session that starts with an empty cache,
  where the quote-only entries all precede the angled-start index, since every
  \<^verbatim>\<open>resolve\<close> then keeps \<open>cacheValid\<close>.
\<close>

lemma cacheAgrees_fresh:
  "cache sl (filename, scanStart sl kind) = None \<Longrightarrow> cacheAgrees env sl filename kind"
  by (simp add: cacheAgrees_def)

lemma cacheValid_agrees: "cacheValid env sl \<Longrightarrow> cacheAgrees env sl filename kind"
  by (simp add: cacheValid_def)

lemma scan_kind_irrelevant:
  assumes "\<And>m. m < length es \<Longrightarrow> \<not> qo (i + m)"
  shows "scan env qo kind filename i es = scan env qo Quoted filename i es"
  using assms
proof (induction es arbitrary: i)
  case Nil
  then show ?case by simp
next
  case (Cons e es)
  have "\<not> qo i" using Cons.prems [of 0] by simp
  moreover have "scan env qo kind filename (Suc i) es = scan env qo Quoted filename (Suc i) es"
    using Cons.prems [of "Suc m" for m] by (intro Cons.IH) simp
  ultimately show ?case by (simp add: skipped_def split: option.splits)
qed

lemma scan_from_start_kind_irrelevant:
  assumes "quoteOnlyFirst sl" and "scanStart sl kind = scanStart sl kind'"
  shows "scan env (quoteOnly sl) kind filename (scanStart sl kind)
           (drop (scanStart sl kind) (entries sl)) =
         scan env (quoteOnly sl) kind' filename (scanStart sl kind')
           (drop (scanStart sl kind') (entries sl))"
proof (cases "kind = kind'")
  case True
  then show ?thesis by simp
next
  case False
  then have z: "angledStart sl = 0" using assms(2)
    by (cases kind; cases kind') (simp_all add: scanStart_def)
  have no: "\<not> quoteOnly sl (0 + m)" if "m < length (drop 0 (entries sl))" for m
    using assms(1) that by (simp add: quoteOnlyFirst_def z list_all_iff)
  have s0: "scanStart sl k = 0" for k
    by (cases k) (simp_all add: scanStart_def z)
  have "scan env (quoteOnly sl) k filename 0 (drop 0 (entries sl)) =
      scan env (quoteOnly sl) Quoted filename 0 (drop 0 (entries sl))" for k
    using no by (rule scan_kind_irrelevant)
  from this [of kind] this [of kind'] show ?thesis
    unfolding s0 by (rule trans [OF _ sym])
qed

lemma cacheValid_empty: "cache sl = Map.empty \<Longrightarrow> cacheValid env sl"
  by (simp add: cacheValid_def cacheAgrees_def)

lemma searchListLookup_cacheValid:
  assumes "quoteOnlyFirst sl" and "cacheValid env sl"
  shows "cacheValid env (snd (searchListLookup env sl filename kind))"
proof (cases "cache sl (filename, scanStart sl kind)")
  case (Some r)
  then show ?thesis using assms(2) by (simp add: searchListLookup_def Let_def)
next
  case None
  define r where "r = scan env (quoteOnly sl) kind filename (scanStart sl kind)
      (drop (scanStart sl kind) (entries sl))"
  define sl' where "sl' = sl\<lparr>cache := (cache sl)((filename, scanStart sl kind) \<mapsto> r)\<rparr>"
  have eq: "snd (searchListLookup env sl filename kind) = sl'"
    using None by (simp add: searchListLookup_def Let_def sl'_def r_def)
  have frame: "entries sl' = entries sl" "quoteOnly sl' = quoteOnly sl"
    "scanStart sl' k = scanStart sl k" for k
    by (cases k; simp add: sl'_def scanStart_def)+
  have "cacheAgrees env sl' f k" for f k
  proof (cases "(f, scanStart sl k) = (filename, scanStart sl kind)")
    case True
    then have "cache sl' (f, scanStart sl k) = Some r" by (simp add: sl'_def)
    moreover have "r = scan env (quoteOnly sl) k f (scanStart sl k)
        (drop (scanStart sl k) (entries sl))"
      unfolding r_def
      using scan_from_start_kind_irrelevant [OF assms(1), of kind k env filename] True
      by simp
    ultimately show ?thesis by (simp add: cacheAgrees_def frame)
  next
    case False
    then have "cache sl' (f, scanStart sl k) = cache sl (f, scanStart sl k)"
      by (auto simp: sl'_def)
    moreover have "cacheAgrees env sl f k" using assms(2) by (simp add: cacheValid_def)
    ultimately show ?thesis by (simp add: cacheAgrees_def frame split: option.splits)
  qed
  then show ?thesis by (simp add: eq cacheValid_def)
qed

lemma resolve_cacheValid:
  assumes "quoteOnlyFirst sl" and "cacheValid env sl"
  shows "cacheValid env (snd (resolve env sl filename kind includingDir))"
proof (cases "kind = Quoted \<and> includingDir \<noteq> None")
  case False
  then have "resolve env sl filename kind includingDir = searchListLookup env sl filename kind"
    by (auto simp: resolve_def split: IncludeKind.splits option.splits)
  then show ?thesis using searchListLookup_cacheValid [OF assms] by simp
next
  case True
  then obtain inc where inc: "kind = Quoted" "includingDir = Some inc" by auto
  obtain r sl' where il: "includerLookup env sl filename inc = (r, sl')"
    by (cases "includerLookup env sl filename inc")
  have frame: "entries sl' = entries sl" "quoteOnly sl' = quoteOnly sl"
    "angledStart sl' = angledStart sl" "cache sl' = cache sl"
    using includerLookup_frame [of env sl filename inc] il by simp_all
  have q: "quoteOnlyFirst sl'" using assms(1) by (simp add: quoteOnlyFirst_def frame)
  have st: "scanStart sl' k = scanStart sl k" for k
    by (cases k) (simp_all add: scanStart_def frame)
  have v: "cacheValid env sl'"
    using assms(2)
    by (simp add: cacheValid_def cacheAgrees_def st frame split: option.splits)
  show ?thesis
  proof (cases r)
    case (Found s)
    then show ?thesis using v by (simp add: resolve_def inc il)
  next
    case NotFound
    then show ?thesis
      using searchListLookup_cacheValid [OF q v] by (simp add: resolve_def inc il)
  qed
qed

lemma resolve_frame:
  "entries (snd (resolve env sl filename kind includingDir)) = entries sl \<and>
   quoteOnly (snd (resolve env sl filename kind includingDir)) = quoteOnly sl \<and>
   angledStart (snd (resolve env sl filename kind includingDir)) = angledStart sl"
  by (auto simp: resolve_def searchListLookup_def includerLookup_def Let_def
      split: IncludeKind.splits option.splits LookupResult.splits prod.splits)

lemma resolve_quoteOnlyFirst:
  "quoteOnlyFirst sl \<Longrightarrow> quoteOnlyFirst (snd (resolve env sl filename kind includingDir))"
  using resolve_frame [of env sl filename kind includingDir]
  by (simp add: quoteOnlyFirst_def)

lemma resolveAll_cacheValid:
  assumes "quoteOnlyFirst sl" and "cacheValid env sl"
  shows "cacheValid env (resolveAll env sl qs)"
  using assms
proof (induction qs arbitrary: sl)
  case Nil
  then show ?case by simp
next
  case (Cons q qs)
  obtain filename kind includingDir where q: "q = (filename, kind, includingDir)"
    by (cases q)
  show ?case
    unfolding q resolveAll.simps
    by (intro Cons.IH resolve_quoteOnlyFirst resolve_cacheValid Cons.prems)
qed

text \<open>
  The session of the counterexample is outside that case: its quote-only entry stands
  at the angled-start index, and after the angled lookup the cache no longer agrees
  with the quoted scan.
\<close>

lemma stale_session_not_cacheAgrees:
  "\<not> quoteOnlyFirst stale_list \<and> \<not> cacheAgrees example_env stale_session ''x.h'' Quoted"
  by (simp add: quoteOnlyFirst_def cacheAgrees_def stale_session_eq scanStart_def
      stale_list_def stale_entries_def skipped_def example_env_def entryResult_def)


end
